theory Spec2Isabelle
  imports Main "HOL-Library.Word" "HOL-Library.Sublist"
begin

section \<open>Data model\<close>

text \<open>
  The C++ type \<open>int\<close> is a 32-bit two's complement integer. It is modelled as a 32-bit
  word: \<open>+\<close> and \<open>-\<close> wrap around, \<open>sint\<close> reads the signed value, and the comparison
  \<open>a < b\<close> of the source is \<open>sint a < sint b\<close>. Signed overflow is undefined in C++;
  theorems that depend on the numeric value of a sum carry the hypothesis that the
  sum stays in range.
\<close>

type_synonym int32 = "32 word"

text \<open>The values of \<open>int\<close>.\<close>

definition fits_int :: "int \<Rightarrow> bool" where
  "fits_int x \<longleftrightarrow> - (2 ^ 31) \<le> x \<and> x < 2 ^ 31"

text \<open>
  A \<open>std::map<std::string, int>\<close> that the code only looks up and updates by key
  (the inventory, the catalog) is a partial map. A map that the code iterates over
  (the \<open>required\<close> argument, a bill of materials) is the list of its entries in
  iteration order; the keys of a \<open>std::map\<close> are pairwise distinct.
\<close>

type_synonym required_map = "(string \<times> int32) list"

subsection \<open>Warehouse (Warehouse.cpp)\<close>

record Warehouse =
  components :: "string \<rightharpoonup> int32"
  finished_products :: "string \<rightharpoonup> int32"

text \<open>The constructor leaves both maps empty.\<close>

definition Warehouse_new :: Warehouse where
  "Warehouse_new = \<lparr>components = Map.empty, finished_products = Map.empty\<rparr>"

text \<open>
  The availability loop of \<open>has_components\<close> and \<open>reserve_components\<close>:
  \<open>find\<close> the key, and fail when it is absent or its quantity is less than required.
\<close>

fun check_availability :: "required_map \<Rightarrow> (string \<rightharpoonup> int32) \<Rightarrow> bool" where
  "check_availability [] m = True"
| "check_availability ((k, v) # rest) m =
     (case m k of
        None \<Rightarrow> False
      | Some q \<Rightarrow> if sint q < sint v then False else check_availability rest m)"

definition has_components :: "required_map \<Rightarrow> Warehouse \<Rightarrow> bool \<times> Warehouse" where
  "has_components required w = (check_availability required (components w), w)"

text \<open>
  \<open>components[k]\<close> inserts the value 0 for a missing key before it is used.
\<close>

definition subscript :: "(string \<rightharpoonup> int32) \<Rightarrow> string \<Rightarrow> int32" where
  "subscript m k = (case m k of None \<Rightarrow> 0 | Some q \<Rightarrow> q)"

fun deduct :: "required_map \<Rightarrow> (string \<rightharpoonup> int32) \<Rightarrow> (string \<rightharpoonup> int32)" where
  "deduct [] m = m"
| "deduct ((k, v) # rest) m = deduct rest (m(k \<mapsto> subscript m k - v))"

definition reserve_components :: "required_map \<Rightarrow> Warehouse \<Rightarrow> bool \<times> Warehouse" where
  "reserve_components required w =
     (if \<not> check_availability required (components w) then (False, w)
      else (True, w\<lparr>components := deduct required (components w)\<rparr>))"

definition add_component :: "string \<Rightarrow> int32 \<Rightarrow> Warehouse \<Rightarrow> Warehouse" where
  "add_component component_id quantity w =
     w\<lparr>components := (components w)(component_id \<mapsto> subscript (components w) component_id + quantity)\<rparr>"

definition get_component_quantity :: "Warehouse \<Rightarrow> string \<Rightarrow> int32" where
  "get_component_quantity w component_id =
     (case components w component_id of Some q \<Rightarrow> q | None \<Rightarrow> 0)"

definition add_finished_product :: "string \<Rightarrow> Warehouse \<Rightarrow> Warehouse" where
  "add_finished_product product_id w =
     w\<lparr>finished_products :=
          (finished_products w)(product_id \<mapsto> subscript (finished_products w) product_id + 1)\<rparr>"

definition get_finished_product_count :: "Warehouse \<Rightarrow> string \<Rightarrow> int32" where
  "get_finished_product_count w product_id =
     (case finished_products w product_id of Some q \<Rightarrow> q | None \<Rightarrow> 0)"

text \<open>
  A caller of the warehouse performs a sequence of the three mutating operations;
  \<open>run_ops\<close> lists the inventory after each of them.
\<close>

datatype WarehouseOp =
    Reserve required_map
  | AddComponent string int32
  | AddFinishedProduct string

fun apply_op :: "WarehouseOp \<Rightarrow> Warehouse \<Rightarrow> Warehouse" where
  "apply_op (Reserve required) w = snd (reserve_components required w)"
| "apply_op (AddComponent k v) w = add_component k v w"
| "apply_op (AddFinishedProduct p) w = add_finished_product p w"

fun run_ops :: "WarehouseOp list \<Rightarrow> Warehouse \<Rightarrow> Warehouse list" where
  "run_ops [] w = []"
| "run_ops (op # ops) w = apply_op op w # run_ops ops (apply_op op w)"

text \<open>No stored component quantity and no stored finished-product count is negative.\<close>

definition non_negative :: "Warehouse \<Rightarrow> bool" where
  "non_negative w \<longleftrightarrow>
     (\<forall>k q. components w k = Some q \<longrightarrow> 0 \<le> sint q) \<and>
     (\<forall>p c. finished_products w p = Some c \<longrightarrow> 0 \<le> sint c)"

text \<open>
  An operation is in range for an inventory when it adds no negative quantity, lists
  each requested component once, and its additions and subtractions stay below
  \<open>2^31\<close>, the range of \<open>int\<close>.
\<close>

fun in_range :: "WarehouseOp \<Rightarrow> Warehouse \<Rightarrow> bool" where
  "in_range (Reserve required) w \<longleftrightarrow>
     distinct (map fst required) \<and>
     list_all (\<lambda>(k, v). sint (subscript (components w) k) - sint v < 2 ^ 31) required"
| "in_range (AddComponent k v) w \<longleftrightarrow>
     0 \<le> sint v \<and> sint (subscript (components w) k) + sint v < 2 ^ 31"
| "in_range (AddFinishedProduct p) w \<longleftrightarrow>
     sint (subscript (finished_products w) p) + 1 < 2 ^ 31"

fun all_in_range :: "WarehouseOp list \<Rightarrow> Warehouse \<Rightarrow> bool" where
  "all_in_range [] w \<longleftrightarrow> True"
| "all_in_range (op # ops) w \<longleftrightarrow> in_range op w \<and> all_in_range ops (apply_op op w)"

subsection \<open>AGV (AGV.h, AGV.cpp)\<close>

datatype AGVState = IDLE | TO_WAREHOUSE | PICKING | TO_STATION | DROPPING | RETURNING

record AGVTask =
  component_id :: string
  quantity :: int32
  destination :: string
  is_complete :: bool

definition AGVTask_new :: AGVTask where
  "AGVTask_new = \<lparr>component_id = [], quantity = 0, destination = [], is_complete = False\<rparr>"

text \<open>
  The member \<open>agv_thread\<close> is kept as what the code depends on: whether the thread
  object holds a thread (is joinable). It does from the first \<open>start\<close> on.
\<close>

record AGV =
  agv_id :: int32
  state :: AGVState
  current_task :: AGVTask
  running :: bool
  agv_thread :: bool
  travel_time_warehouse_minutes :: int32
  travel_time_station_minutes :: int32
  picking_time_minutes :: int32
  dropping_time_minutes :: int32
  total_operations :: int32
  busy_time_minutes :: int32

definition AGV_new :: "int32 \<Rightarrow> AGV" where
  "AGV_new i =
     \<lparr>agv_id = i, state = IDLE, current_task = AGVTask_new, running = False,
      agv_thread = False, travel_time_warehouse_minutes = 2, travel_time_station_minutes = 3,
      picking_time_minutes = 1, dropping_time_minutes = 1,
      total_operations = 0, busy_time_minutes = 0\<rparr>"

text \<open>
  \<open>start\<close> assigns a new thread to \<open>agv_thread\<close>. Assigning to a thread object that
  still holds a thread ends the program (\<open>std::terminate\<close>): the result \<open>None\<close>.
\<close>

definition start :: "AGV \<Rightarrow> AGV option" where
  "start a =
     (if agv_thread a then None else Some (a\<lparr>running := True, agv_thread := True\<rparr>))"

definition stop :: "AGV \<Rightarrow> AGV" where
  "stop a = a\<lparr>running := False\<rparr>"

definition transition_to :: "AGVState \<Rightarrow> AGV \<Rightarrow> AGV" where
  "transition_to new_state a = a\<lparr>state := new_state\<rparr>"

definition assign_task :: "string \<Rightarrow> int32 \<Rightarrow> string \<Rightarrow> AGV \<Rightarrow> AGV" where
  "assign_task component qty dest a =
     (if state a = IDLE \<and> component_id (current_task a) = [] then
        a\<lparr>current_task := (current_task a)
             \<lparr>component_id := component, quantity := qty,
              destination := dest, is_complete := False\<rparr>\<rparr>
      else a)"

definition is_idle :: "AGV \<Rightarrow> bool" where
  "is_idle a \<longleftrightarrow> state a = IDLE \<and> component_id (current_task a) = []"

definition get_state :: "AGV \<Rightarrow> AGVState" where
  "get_state a = state a"

definition get_current_task :: "AGV \<Rightarrow> AGVTask" where
  "get_current_task a = current_task a"

text \<open>
  The body of the loop of \<open>AGV::run\<close> once a task is present. The thread holds the lock
  in five sections and sleeps between them; each entry of the result is the AGV as
  it stands when a section ends, with the simulated minutes the thread then sleeps
  (none after the last section, where the loop starts over).
\<close>

definition execute_task :: "AGV \<Rightarrow> (AGV \<times> int32) list" where
  "execute_task a =
     (let a1 = transition_to TO_WAREHOUSE a;
          a2 = transition_to PICKING a1;
          a3 = transition_to TO_STATION a2;
          a4 = transition_to DROPPING a3;
          a5 = a4\<lparr>busy_time_minutes := busy_time_minutes a4 +
                  (travel_time_warehouse_minutes a4 + picking_time_minutes a4 +
                   travel_time_station_minutes a4 + dropping_time_minutes a4)\<rparr>;
          a6 = a5\<lparr>total_operations := total_operations a5 + 1\<rparr>;
          a7 = a6\<lparr>current_task := AGVTask_new\<rparr>;
          a8 = transition_to IDLE a7
      in [(a1, travel_time_warehouse_minutes a1),
          (a2, picking_time_minutes a2),
          (a3, travel_time_station_minutes a3),
          (a4, dropping_time_minutes a4),
          (a8, 0)])"

text \<open>
  One pass of the loop: it ends the thread when \<open>running\<close> is false, stays blocked in
  the wait while no task is present, and executes the task otherwise.
\<close>

definition run_iteration :: "AGV \<Rightarrow> (AGV \<times> int32) list" where
  "run_iteration a =
     (if \<not> running a then []
      else if component_id (current_task a) = [] then []
      else execute_task a)"

text \<open>
  The states of an AGV over one pass of its loop: the state it is in when the pass
  begins, then the states it enters.
\<close>

definition pass_states :: "AGV \<Rightarrow> AGVState list" where
  "pass_states a = state a # map (\<lambda>x. state (fst x)) (run_iteration a)"

text \<open>The pairs of successive states of a sequence.\<close>

definition transitions :: "AGVState list \<Rightarrow> (AGVState \<times> AGVState) list" where
  "transitions tr = zip tr (tl tr)"

text \<open>
  The task cycle as the specification words it, in AGV.h's states: the sequence of
  states of one cycle, and its timed legs.
\<close>

definition spec_cycle :: "AGVState list" where
  "spec_cycle = [IDLE, TO_WAREHOUSE, PICKING, TO_STATION, DROPPING, RETURNING, IDLE]"

definition spec_legs :: "AGVState list" where
  "spec_legs = [TO_WAREHOUSE, PICKING, TO_STATION, DROPPING, RETURNING]"

text \<open>
  The end of a task cycle as the specification words it: the pass has a leg in every
  state of \<open>spec_legs\<close>, the busy time has grown by the durations of the legs of the
  pass, the total of operations by one, the task is the empty task and the state is
  \<open>IDLE\<close>.
\<close>

definition completes_cycle_as_specified :: "AGV \<Rightarrow> bool" where
  "completes_cycle_as_specified a \<longleftrightarrow>
     set spec_legs \<subseteq> set (map (\<lambda>x. state (fst x)) (run_iteration a)) \<and>
     busy_time_minutes (fst (last (run_iteration a))) =
       busy_time_minutes a + sum_list (map snd (run_iteration a)) \<and>
     total_operations (fst (last (run_iteration a))) = total_operations a + 1 \<and>
     current_task (fst (last (run_iteration a))) = AGVTask_new \<and>
     state (fst (last (run_iteration a))) = IDLE"

subsection \<open>Order (Order.h) and Product\<close>

record Order =
  release_hour :: int32
  release_minute :: int32
  release_time_minutes :: int32
  product_id :: string
  priority :: int32
  due_date_minutes :: int32
  completion_time_minutes :: int32
  is_completed :: bool

definition Order_new :: Order where
  "Order_new =
     \<lparr>release_hour = 0, release_minute = 0, release_time_minutes = 0, product_id = [],
      priority = 0, due_date_minutes = - 1, completion_time_minutes = - 1,
      is_completed = False\<rparr>"

text \<open>
  Modelled from the spec: the declaration of \<open>Product\<close> (Product.h) is not among the
  sources. The specification gives a product a bill of materials, mapping component
  ids to required quantities, and a base assembly duration; the station reads them as
  the members \<open>bom\<close> and \<open>base_assembly_time_minutes\<close>.
\<close>

record Product =
  bom :: required_map
  base_assembly_time_minutes :: int32

subsection \<open>AssemblyStation (AssemblyStation.h, AssemblyStation.cpp)\<close>

text \<open>
  The station holds pointers to the warehouse, the fleet and the catalog. The two
  pointers the code tests against null (\<open>agv_fleet\<close>, \<open>products\<close>) are optional
  values; the warehouse and the AGVs of the fleet, which the code dereferences
  unconditionally, are the objects themselves, each AGV of the fleet a distinct
  object. The fleet is indexed by natural numbers: the code's index arithmetic is on
  \<open>size_t\<close> and never exceeds twice the fleet size.
\<close>

record AssemblyStation =
  warehouse :: Warehouse
  agv_fleet :: "AGV list option"
  products :: "(string \<rightharpoonup> Product) option"
  order_queue :: "Order list"
  station_running :: bool
  current_sim_time_minutes :: int32
  setup_time_minutes :: int32
  total_busy_time_minutes :: int32
  orders_completed :: int32

definition AssemblyStation_new :: "Warehouse \<Rightarrow> AGV list option \<Rightarrow> AssemblyStation" where
  "AssemblyStation_new wh fleet =
     \<lparr>warehouse = wh, agv_fleet = fleet, products = None, order_queue = [],
      station_running = False, current_sim_time_minutes = 0, setup_time_minutes = 5,
      total_busy_time_minutes = 0, orders_completed = 0\<rparr>"

definition set_products :: "(string \<rightharpoonup> Product) option \<Rightarrow> AssemblyStation \<Rightarrow> AssemblyStation" where
  "set_products prods st = st\<lparr>products := prods\<rparr>"

definition set_simulation_time :: "int32 \<Rightarrow> AssemblyStation \<Rightarrow> AssemblyStation" where
  "set_simulation_time minutes st = st\<lparr>current_sim_time_minutes := minutes\<rparr>"

definition add_order :: "Order \<Rightarrow> AssemblyStation \<Rightarrow> AssemblyStation" where
  "add_order order st = st\<lparr>order_queue := order_queue st @ [order]\<rparr>"

text \<open>
  The inner loop of \<open>request_components\<close>: from offset \<open>i\<close> on, the first offset whose
  AGV, at index \<open>(agv_index + i) % size\<close>, is idle.
\<close>

function find_idle :: "AGV list \<Rightarrow> nat \<Rightarrow> nat \<Rightarrow> nat option" where
  "find_idle fleet agv_index i =
     (if i < length fleet then
        (if is_idle (fleet ! ((agv_index + i) mod length fleet)) then Some i
         else find_idle fleet agv_index (i + 1))
      else None)"
  by pat_completeness auto
termination
  by (relation "measure (\<lambda>(fleet, agv_index, i). length fleet - i)") auto

declare find_idle.simps [simp del]

text \<open>
  The body of the outer loop for one entry of the bill of materials: the idle AGV found
  is assigned the task and the index moves one past it; when none is idle nothing is
  assigned and the index stays.
\<close>

definition assign_component :: "string \<times> int32 \<Rightarrow> AGV list \<times> nat \<Rightarrow> AGV list \<times> nat" where
  "assign_component component fa =
     (case fa of (fleet, agv_index) \<Rightarrow>
        (case find_idle fleet agv_index 0 of
           None \<Rightarrow> (fleet, agv_index)
         | Some i \<Rightarrow>
             (fleet[(agv_index + i) mod length fleet :=
                      assign_task (fst component) (snd component) ''ASSEMBLY_STATION''
                        (fleet ! ((agv_index + i) mod length fleet))],
              (agv_index + i + 1) mod length fleet)))"

fun assign_agv_tasks :: "required_map \<Rightarrow> AGV list \<times> nat \<Rightarrow> AGV list \<times> nat" where
  "assign_agv_tasks [] fa = fa"
| "assign_agv_tasks (component # rest) fa = assign_agv_tasks rest (assign_component component fa)"

text \<open>\<open>wait_for_components\<close> only sleeps: it changes nothing of the station.\<close>

definition wait_for_components :: "string \<Rightarrow> AssemblyStation \<Rightarrow> AssemblyStation" where
  "wait_for_components pid st = st"

definition request_components :: "string \<Rightarrow> AssemblyStation \<Rightarrow> bool \<times> AssemblyStation" where
  "request_components pid st =
     (case products st of
        None \<Rightarrow> (False, st)
      | Some catalog \<Rightarrow>
          (case catalog pid of
             None \<Rightarrow> (False, st)
           | Some product \<Rightarrow>
               (case reserve_components (bom product) (warehouse st) of
                  (False, w1) \<Rightarrow> (False, st\<lparr>warehouse := w1\<rparr>)
                | (True, w1) \<Rightarrow>
                    (if agv_fleet st = None \<or> agv_fleet st = Some [] then
                       (False, st\<lparr>warehouse := snd (reserve_components (bom product) w1)\<rparr>)
                     else
                       (True,
                        wait_for_components pid
                          (st\<lparr>warehouse := w1,
                              agv_fleet :=
                                Some (fst (assign_agv_tasks (bom product)
                                             (the (agv_fleet st), 0)))\<rparr>))))))"

definition calculate_operation_time :: "string \<Rightarrow> AssemblyStation \<Rightarrow> int32" where
  "calculate_operation_time pid st =
     (case products st of
        None \<Rightarrow> 30 + setup_time_minutes st
      | Some catalog \<Rightarrow>
          (case catalog pid of
             None \<Rightarrow> 30 + setup_time_minutes st
           | Some product \<Rightarrow> base_assembly_time_minutes product + setup_time_minutes st))"

text \<open>
  The loop body of \<open>process_orders\<close> for the order it has popped. The order is the
  loop's local copy; the result is that copy as it stands when the pass ends, with the
  station.
\<close>

definition process_order :: "Order \<Rightarrow> AssemblyStation \<Rightarrow> Order \<times> AssemblyStation" where
  "process_order order st =
     (case request_components (product_id order) st of
        (False, st1) \<Rightarrow> (order, st1)
      | (True, st1) \<Rightarrow>
          (let operation_time = calculate_operation_time (product_id order) st1;
               st2 = st1\<lparr>total_busy_time_minutes := total_busy_time_minutes st1 + operation_time\<rparr>;
               order1 = order\<lparr>is_completed := True\<rparr>;
               order2 = order1\<lparr>completion_time_minutes :=
                                 current_sim_time_minutes st2 + operation_time\<rparr>;
               st3 = st2\<lparr>orders_completed := orders_completed st2 + 1\<rparr>;
               st4 = st3\<lparr>warehouse := add_finished_product (product_id order) (warehouse st3)\<rparr>
           in (order2, st4)))"

text \<open>
  The loop of \<open>process_orders\<close> from its wait on, over the orders queued. With the
  queue empty the thread stays in the wait, or leaves the loop when \<open>running\<close> is
  false. Otherwise it pops and handles the front order, whatever \<open>running\<close> is,
  and the loop condition then ends the thread when \<open>running\<close> is false. The result
  lists the local copies of the orders handled.
\<close>

fun process_queue :: "Order list \<Rightarrow> AssemblyStation \<Rightarrow> Order list \<times> AssemblyStation" where
  "process_queue [] st = ([], st)"
| "process_queue (order # rest) st =
     (case process_order order (st\<lparr>order_queue := rest\<rparr>) of
        (order', st') \<Rightarrow>
          (if \<not> station_running st' then ([order'], st')
           else
             (case process_queue rest st' of
                (handled, st'') \<Rightarrow> (order' # handled, st''))))"

text \<open>The thread function: the loop condition is tested before the first wait.\<close>

definition process_orders :: "AssemblyStation \<Rightarrow> Order list \<times> AssemblyStation" where
  "process_orders st =
     (if \<not> station_running st then ([], st) else process_queue (order_queue st) st)"

section \<open>Example configurations\<close>

definition example_warehouse :: Warehouse where
  "example_warehouse =
     \<lparr>components = [''bolt'' \<mapsto> 4, ''nut'' \<mapsto> 2], finished_products = Map.empty\<rparr>"

definition example_ops :: "WarehouseOp list" where
  "example_ops =
     [AddComponent ''bolt'' 5, Reserve [(''bolt'', 3)], AddFinishedProduct ''P1'',
      Reserve [(''bolt'', 3)], Reserve [(''bolt'', - 2)]]"

text \<open>The AGV with the given id after its constructor and \<open>start\<close>.\<close>

definition started_agv :: "int32 \<Rightarrow> AGV" where
  "started_agv i = (AGV_new i)\<lparr>running := True, agv_thread := True\<rparr>"

definition example_agv :: AGV where
  "example_agv = started_agv 1"

definition example_task_agv :: AGV where
  "example_task_agv = assign_task ''bolt'' 3 ''ASSEMBLY_STATION'' example_agv"

definition example_catalog :: "string \<rightharpoonup> Product" where
  "example_catalog =
     [''P1'' \<mapsto> \<lparr>bom = [(''bolt'', 1), (''nut'', 1)], base_assembly_time_minutes = 20\<rparr>,
      ''P2'' \<mapsto> \<lparr>bom = [(''bolt'', 3)], base_assembly_time_minutes = 12\<rparr>,
      ''P3'' \<mapsto> \<lparr>bom = [(''nut'', 1)], base_assembly_time_minutes = 8\<rparr>]"

definition example_station :: AssemblyStation where
  "example_station =
     set_products (Some example_catalog)
       (AssemblyStation_new example_warehouse (Some [started_agv 0, started_agv 1]))"

definition example_order :: Order where
  "example_order = Order_new\<lparr>release_time_minutes := 10, product_id := ''P1''\<rparr>"

definition example_station_no_fleet :: AssemblyStation where
  "example_station_no_fleet =
     set_products (Some example_catalog) (AssemblyStation_new example_warehouse None)"

text \<open>
  Two orders for the one-component product \<open>P3\<close> on a fleet of two AGVs: the station
  handles the first, the AGV it chose completes its task, and the station handles the
  second.
\<close>

definition station_after_first_order :: AssemblyStation where
  "station_after_first_order = snd (request_components ''P3'' example_station)"

definition station_before_second_order :: AssemblyStation where
  "station_before_second_order =
     station_after_first_order
       \<lparr>agv_fleet :=
          map_option (\<lambda>fleet. fleet[0 := fst (last (run_iteration (fleet ! 0)))])
            (agv_fleet station_after_first_order)\<rparr>"

definition station_after_second_order :: AssemblyStation where
  "station_after_second_order = snd (request_components ''P3'' station_before_second_order)"

definition task_components :: "AGV list option \<Rightarrow> string list" where
  "task_components fleet = map (\<lambda>a. component_id (current_task a)) (the fleet)"

section \<open>Warehouse: availability and reservation\<close>

lemma check_availability_iff:
  "check_availability required m \<longleftrightarrow>
     (\<forall>(k, v) \<in> set required. \<exists>q. m k = Some q \<and> sint v \<le> sint q)"
  by (induction required m rule: check_availability.induct)
     (auto split: option.splits)

lemma deduct_notin: "k \<notin> fst ` set required \<Longrightarrow> deduct required m k = m k"
  by (induction required m rule: deduct.induct) auto

lemma deduct_in:
  "distinct (map fst required) \<Longrightarrow> (k, v) \<in> set required \<Longrightarrow>
   deduct required m k = Some (subscript m k - v)"
proof (induction required m rule: deduct.induct)
  case (1 m)
  then show ?case by simp
next
  case (2 k' v' rest m)
  show ?case
  proof (cases "k = k'")
    case True
    with 2 have "v = v'" and "k \<notin> fst ` set rest"
      by (auto simp: image_iff)
    with True show ?thesis
      by (simp add: deduct_notin)
  next
    case False
    from 2(2,3) False have "distinct (map fst rest)" and "(k, v) \<in> set rest"
      by auto
    then have "deduct rest (m(k' \<mapsto> subscript m k' - v')) k =
                 Some (subscript (m(k' \<mapsto> subscript m k' - v')) k - v)"
      by (rule 2(1))
    moreover from False have "subscript (m(k' \<mapsto> subscript m k' - v')) k = subscript m k"
      by (simp add: subscript_def)
    ultimately show ?thesis by simp
  qed
qed

lemma sint_sub_in_range:
  fixes q v :: int32
  assumes "sint v \<le> sint q" "sint q - sint v < 2 ^ 31"
  shows "sint (q - v) = sint q - sint v"
  using assms
  by (simp add: sint_word_ariths signed_take_bit_int_eq_self)

lemma sint_add_in_range:
  fixes q v :: int32
  assumes "0 \<le> sint v" "0 \<le> sint q" "sint q + sint v < 2 ^ 31"
  shows "sint (q + v) = sint q + sint v"
  using assms
  by (simp add: sint_word_ariths signed_take_bit_int_eq_self)

text \<open>
  Claim C9. \<open>has_components\<close> returns true exactly when every entry of the required
  map is present in the inventory with a quantity at least the requested one, and it
  returns the inventory, components and finished products, as it was.
\<close>

theorem has_components_correct:
  "(fst (has_components required w) \<longleftrightarrow>
      (\<forall>(k, v) \<in> set required. \<exists>q. components w k = Some q \<and> sint v \<le> sint q)) \<and>
   snd (has_components required w) = w"
  by (simp add: has_components_def check_availability_iff)

theorem has_components_correct_witness:
  "fst (has_components [(''bolt'', 3), (''nut'', 2)] example_warehouse) \<and>
   \<not> fst (has_components [(''bolt'', 3), (''nut'', 3)] example_warehouse) \<and>
   \<not> fst (has_components [(''gear'', 1)] example_warehouse) \<and>
   snd (has_components [(''bolt'', 3), (''nut'', 2)] example_warehouse) = example_warehouse"
  using has_components_correct [of "[(''bolt'', 3), (''nut'', 2)]" example_warehouse]
    has_components_correct [of "[(''bolt'', 3), (''nut'', 3)]" example_warehouse]
    has_components_correct [of "[(''gear'', 1)]" example_warehouse]
  by (simp add: example_warehouse_def)

text \<open>
  Claim C1. For every inventory and every required map, \<open>reserve_components\<close> either
  returns true and has deducted from every requested component exactly its requested
  quantity, every other component and the finished products as before, or returns
  false, some requested component being absent or short, and leaves the inventory as
  it was. There is no partial deduction.
\<close>

theorem reserve_components_all_or_nothing:
  assumes "distinct (map fst required)"
  shows "(fst (reserve_components required w) \<and>
          (\<forall>(k, v) \<in> set required. \<exists>q. components w k = Some q \<and> sint v \<le> sint q \<and>
              components (snd (reserve_components required w)) k = Some (q - v)) \<and>
          (\<forall>k. k \<notin> fst ` set required \<longrightarrow>
              components (snd (reserve_components required w)) k = components w k) \<and>
          finished_products (snd (reserve_components required w)) = finished_products w)
         \<or>
         (\<not> fst (reserve_components required w) \<and>
          (\<exists>(k, v) \<in> set required. \<forall>q. components w k = Some q \<longrightarrow> sint q < sint v) \<and>
          snd (reserve_components required w) = w)"
proof (cases "check_availability required (components w)")
  case True
  then have avail: "\<forall>(k, v) \<in> set required. \<exists>q. components w k = Some q \<and> sint v \<le> sint q"
    by (simp add: check_availability_iff)
  have res: "reserve_components required w = (True, w\<lparr>components := deduct required (components w)\<rparr>)"
    using True by (simp add: reserve_components_def)
  have "\<exists>q. components w k = Some q \<and> sint v \<le> sint q \<and>
            deduct required (components w) k = Some (q - v)"
    if kv: "(k, v) \<in> set required" for k v
  proof -
    from avail kv obtain q where q: "components w k = Some q" "sint v \<le> sint q"
      by auto
    from deduct_in [OF assms kv] q show ?thesis
      by (simp add: subscript_def)
  qed
  with res show ?thesis
    by (auto simp: deduct_notin)
next
  case False
  then have "\<exists>(k, v) \<in> set required. \<forall>q. components w k = Some q \<longrightarrow> sint q < sint v"
    unfolding check_availability_iff by (fastforce simp: not_le)
  with False show ?thesis
    by (simp add: reserve_components_def)
qed

theorem reserve_components_all_or_nothing_witness:
  "fst (reserve_components [(''bolt'', 3), (''nut'', 2)] example_warehouse) \<and>
   components (snd (reserve_components [(''bolt'', 3), (''nut'', 2)] example_warehouse)) ''bolt'' = Some 1 \<and>
   components (snd (reserve_components [(''bolt'', 3), (''nut'', 2)] example_warehouse)) ''nut'' = Some 0 \<and>
   \<not> fst (reserve_components [(''bolt'', 3), (''nut'', 3)] example_warehouse) \<and>
   snd (reserve_components [(''bolt'', 3), (''nut'', 3)] example_warehouse) = example_warehouse"
  using reserve_components_all_or_nothing [of "[(''bolt'', 3), (''nut'', 2)]" example_warehouse]
    reserve_components_all_or_nothing [of "[(''bolt'', 3), (''nut'', 3)]" example_warehouse]
  by (simp add: example_warehouse_def reserve_components_def subscript_def)

section \<open>Warehouse: non-negative quantities\<close>

lemma non_negative_reserve:
  assumes nn: "non_negative w" and d: "distinct (map fst required)"
    and pos: "list_all (\<lambda>(k, v). sint (subscript (components w) k) - sint v < 2 ^ 31) required"
  shows "non_negative (snd (reserve_components required w))"
proof (cases "check_availability required (components w)")
  case False
  with nn show ?thesis by (simp add: reserve_components_def)
next
  case True
  then have avail: "\<forall>(k, v) \<in> set required. \<exists>q. components w k = Some q \<and> sint v \<le> sint q"
    by (simp add: check_availability_iff)
  have "0 \<le> sint q'" if look: "deduct required (components w) k = Some q'" for k q'
  proof (cases "k \<in> fst ` set required")
    case False
    with look have "components w k = Some q'" by (simp add: deduct_notin)
    with nn show ?thesis by (auto simp: non_negative_def)
  next
    case True
    then obtain v where kv: "(k, v) \<in> set required" by auto
    with avail obtain q where q: "components w k = Some q" "sint v \<le> sint q" by auto
    from pos kv q have v: "sint q - sint v < 2 ^ 31"
      by (auto simp: list_all_iff subscript_def)
    from deduct_in [OF d kv] q look have "q' = q - v" by (simp add: subscript_def)
    with sint_sub_in_range [OF q(2) v] q(2) show ?thesis by simp
  qed
  with nn True show ?thesis
    by (simp add: reserve_components_def non_negative_def)
qed

lemma non_negative_add_component:
  assumes nn: "non_negative w" and v: "0 \<le> sint v"
    and r: "sint (subscript (components w) k) + sint v < 2 ^ 31"
  shows "non_negative (add_component k v w)"
proof -
  from nn have q: "0 \<le> sint (subscript (components w) k)"
    by (auto simp: non_negative_def subscript_def split: option.splits)
  from sint_add_in_range [OF v q r] v q
  have "0 \<le> sint (subscript (components w) k + v)" by simp
  with nn show ?thesis
    by (auto simp: non_negative_def add_component_def)
qed

lemma non_negative_add_finished_product:
  assumes nn: "non_negative w"
    and r: "sint (subscript (finished_products w) p) + 1 < 2 ^ 31"
  shows "non_negative (add_finished_product p w)"
proof -
  from nn have q: "0 \<le> sint (subscript (finished_products w) p)"
    by (auto simp: non_negative_def subscript_def split: option.splits)
  have one: "0 \<le> sint (1 :: int32)" by simp
  from r have "sint (subscript (finished_products w) p) + sint (1 :: int32) < 2 ^ 31" by simp
  from sint_add_in_range [OF one q this] q
  have "0 \<le> sint (subscript (finished_products w) p + 1)" by simp
  with nn show ?thesis
    by (auto simp: non_negative_def add_finished_product_def)
qed

lemma non_negative_apply_op:
  "non_negative w \<Longrightarrow> in_range op w \<Longrightarrow> non_negative (apply_op op w)"
  by (cases op)
     (simp_all add: non_negative_reserve non_negative_add_component
        non_negative_add_finished_product)

text \<open>
  Claim C2, as amended. From a non-negative inventory, after each operation of a
  sequence of reservations, component additions and finished-product additions that
  is in range (no negative quantity is added and no operation leaves the range of
  \<open>int\<close>) every component quantity and every finished-product count is non-negative.
\<close>

theorem warehouse_non_negative_in_range:
  "non_negative w \<Longrightarrow> all_in_range ops w \<Longrightarrow> list_all non_negative (run_ops ops w)"
  by (induction ops arbitrary: w) (simp_all add: non_negative_apply_op)

lemma non_negative_new: "non_negative Warehouse_new"
  by (simp add: non_negative_def Warehouse_new_def)

theorem warehouse_non_negative_in_range_witness:
  "non_negative Warehouse_new \<and> all_in_range example_ops Warehouse_new \<and>
   list_all non_negative (run_ops example_ops Warehouse_new) \<and>
   map (\<lambda>w. get_component_quantity w ''bolt'') (run_ops example_ops Warehouse_new) = [5, 2, 2, 2, 4] \<and>
   get_finished_product_count (last (run_ops example_ops Warehouse_new)) ''P1'' = 1"
proof -
  have r: "all_in_range example_ops Warehouse_new"
    by (simp add: example_ops_def Warehouse_new_def add_component_def reserve_components_def
        add_finished_product_def subscript_def)
  have v: "map (\<lambda>w. get_component_quantity w ''bolt'') (run_ops example_ops Warehouse_new) = [5, 2, 2, 2, 4]"
    by (simp add: example_ops_def Warehouse_new_def add_component_def reserve_components_def
        add_finished_product_def subscript_def get_component_quantity_def)
  have f: "get_finished_product_count (last (run_ops example_ops Warehouse_new)) ''P1'' = 1"
    by (simp add: example_ops_def Warehouse_new_def add_component_def reserve_components_def
        add_finished_product_def subscript_def get_finished_product_count_def)
  from warehouse_non_negative_in_range [OF non_negative_new r] non_negative_new r v f
  show ?thesis by simp
qed

text \<open>
  Claim C2 as stated fails: \<open>add_component\<close> adds whatever quantity it is given, so
  adding \<open>-1\<close> of a component to the empty warehouse leaves the quantity \<open>-1\<close>.
\<close>

theorem add_component_negative_counterexample:
  "non_negative Warehouse_new \<and>
   \<not> list_all non_negative (run_ops [AddComponent ''bolt'' (- 1)] Warehouse_new) \<and>
   get_component_quantity (add_component ''bolt'' (- 1) Warehouse_new) ''bolt'' = - 1"
proof -
  have c: "components (add_component ''bolt'' (- 1) Warehouse_new) ''bolt'' = Some (- 1)"
    by (simp add: add_component_def Warehouse_new_def subscript_def)
  have "\<not> non_negative (add_component ''bolt'' (- 1) Warehouse_new)"
  proof
    assume "non_negative (add_component ''bolt'' (- 1) Warehouse_new)"
    with c have "0 \<le> sint (- 1 :: int32)"
      unfolding non_negative_def by blast
    then show False by simp
  qed
  moreover from c have "get_component_quantity (add_component ''bolt'' (- 1) Warehouse_new) ''bolt'' = - 1"
    by (simp add: get_component_quantity_def)
  ultimately show ?thesis
    using non_negative_new by simp
qed

section \<open>AGV: task assignment and the task pass\<close>

text \<open>
  Claim C4. \<open>assign_task\<close> stores the given component id, quantity and destination as
  the current task exactly when the AGV is in state \<open>IDLE\<close> and its current task is
  empty (its component id is the empty string, which is the test of \<open>is_idle\<close> too);
  otherwise it returns the AGV, state and task included, as it was.
\<close>

theorem assign_task_contract:
  "is_idle a = (state a = IDLE \<and> component_id (current_task a) = []) \<and>
   (state a = IDLE \<and> component_id (current_task a) = [] \<longrightarrow>
      assign_task component qty dest a =
        a\<lparr>current_task := \<lparr>component_id = component, quantity = qty,
                              destination = dest, is_complete = False\<rparr>\<rparr>) \<and>
   (\<not> (state a = IDLE \<and> component_id (current_task a) = []) \<longrightarrow>
      assign_task component qty dest a = a)"
  by (simp add: assign_task_def is_idle_def)

theorem assign_task_contract_witness:
  "current_task (assign_task ''bolt'' 3 ''ASSEMBLY_STATION'' example_agv) =
     \<lparr>component_id = ''bolt'', quantity = 3, destination = ''ASSEMBLY_STATION'',
      is_complete = False\<rparr> \<and>
   state (assign_task ''bolt'' 3 ''ASSEMBLY_STATION'' example_agv) = IDLE \<and>
   assign_task ''nut'' 7 ''WAREHOUSE'' example_task_agv = example_task_agv \<and>
   assign_task ''nut'' 7 ''WAREHOUSE'' (transition_to PICKING example_agv) =
     transition_to PICKING example_agv"
  using assign_task_contract [of example_agv "''bolt''" 3 "''ASSEMBLY_STATION''"]
    assign_task_contract [of example_task_agv "''nut''" 7 "''WAREHOUSE''"]
    assign_task_contract [of "transition_to PICKING example_agv" "''nut''" 7 "''WAREHOUSE''"]
  by (simp add: example_agv_def example_task_agv_def AGV_new_def started_agv_def
      AGVTask_new_def transition_to_def assign_task_def)

text \<open>The first \<open>start\<close> of an AGV succeeds; a second one ends the program.\<close>

lemma start_new_agv: "start (AGV_new i) = Some (started_agv i)"
  by (simp add: start_def AGV_new_def started_agv_def)

lemma start_twice: "start (started_agv i) = None"
  by (simp add: start_def started_agv_def)

text \<open>
  While a started AGV holds a task, before the pass that executes it and between the
  sections of that pass, \<open>assign_task\<close> changes nothing.
\<close>

lemma assign_task_during_task:
  "running a \<Longrightarrow> component_id (current_task a) \<noteq> [] \<Longrightarrow>
   assign_task component qty dest a = a \<and>
   list_all (\<lambda>x. assign_task component qty dest (fst x) = fst x) (butlast (run_iteration a))"
  by (simp add: run_iteration_def execute_task_def Let_def transition_to_def assign_task_def)

lemma example_task_agv_pass:
  "run_iteration example_task_agv =
     [(example_task_agv\<lparr>state := TO_WAREHOUSE\<rparr>, 2),
      (example_task_agv\<lparr>state := PICKING\<rparr>, 1),
      (example_task_agv\<lparr>state := TO_STATION\<rparr>, 3),
      (example_task_agv\<lparr>state := DROPPING\<rparr>, 1),
      (example_task_agv\<lparr>state := IDLE, current_task := AGVTask_new,
         total_operations := 1, busy_time_minutes := 7\<rparr>, 0)]"
  by (simp add: example_task_agv_def example_agv_def assign_task_def started_agv_def AGV_new_def
      AGVTask_new_def run_iteration_def execute_task_def Let_def transition_to_def)

lemma example_task_agv_fields:
  "state example_task_agv = IDLE \<and> busy_time_minutes example_task_agv = 0 \<and>
   total_operations example_task_agv = 0"
  by (simp add: example_task_agv_def example_agv_def assign_task_def started_agv_def AGV_new_def)

text \<open>
  Claim C3: the code departs from it. An AGV that is constructed, started and assigned
  a task passes through \<open>IDLE, TO_WAREHOUSE, PICKING, TO_STATION, DROPPING, IDLE\<close> in
  the pass that executes the task. This is not a prefix of the cycle of the claim;
  the transition from \<open>DROPPING\<close> to \<open>IDLE\<close> is none of that cycle's; and the
  state \<open>RETURNING\<close>, which AGV.h declares, does not occur between \<open>DROPPING\<close>
  and \<open>IDLE\<close>.
\<close>

theorem agv_pass_skips_returning:
  "pass_states example_task_agv =
     [IDLE, TO_WAREHOUSE, PICKING, TO_STATION, DROPPING, IDLE] \<and>
   \<not> prefix (pass_states example_task_agv) spec_cycle \<and>
   (DROPPING, IDLE) \<in> set (transitions (pass_states example_task_agv)) \<and>
   (DROPPING, IDLE) \<notin> set (transitions spec_cycle) \<and>
   RETURNING \<notin> set (pass_states example_task_agv)"
  by (simp add: pass_states_def example_task_agv_pass example_task_agv_fields
      transitions_def spec_cycle_def)

text \<open>
  Claim C7: the code departs from it. The pass in which the same AGV finishes its task
  does not end the cycle as the claim words it: it has no \<open>RETURNING\<close> leg, so the busy
  time grows by the durations of four legs only, 2 + 1 + 3 + 1 minutes. The other
  parts of the claim hold there: the total of operations grows by one, the task is
  the empty task and the state is \<open>IDLE\<close>.
\<close>

theorem agv_pass_omits_returning_leg:
  "\<not> completes_cycle_as_specified example_task_agv \<and>
   RETURNING \<notin> set (map (\<lambda>x. state (fst x)) (run_iteration example_task_agv)) \<and>
   map (\<lambda>x. state (fst x)) (run_iteration example_task_agv) =
     [TO_WAREHOUSE, PICKING, TO_STATION, DROPPING, IDLE] \<and>
   map snd (run_iteration example_task_agv) = [2, 1, 3, 1, 0] \<and>
   busy_time_minutes (fst (last (run_iteration example_task_agv))) =
     busy_time_minutes example_task_agv + (2 + 1 + 3 + 1) \<and>
   total_operations (fst (last (run_iteration example_task_agv))) =
     total_operations example_task_agv + 1 \<and>
   current_task (fst (last (run_iteration example_task_agv))) = AGVTask_new \<and>
   state (fst (last (run_iteration example_task_agv))) = IDLE"
  by (simp add: completes_cycle_as_specified_def spec_legs_def example_task_agv_pass
      example_task_agv_fields)

section \<open>AssemblyStation: order processing\<close>

lemma request_components_unknown:
  assumes "products st = None \<or>
           (\<exists>catalog. products st = Some catalog \<and> catalog pid = None)"
  shows "request_components pid st = (False, st)"
  using assms by (auto simp: request_components_def)

text \<open>
  Claim C6. When the catalog is unset or has no entry for the order's product, the loop
  body of \<open>process_orders\<close> returns the order and the station as they were: the
  order is not marked completed, the completed-order counter and the busy time are
  not incremented, and the warehouse, components and finished products, is unchanged.
  The order is popped from the queue and dropped.
\<close>

theorem unknown_product_rejected:
  assumes "products st = None \<or>
           (\<exists>catalog. products st = Some catalog \<and> catalog (product_id order) = None)"
  shows "process_order order st = (order, st) \<and>
         is_completed (fst (process_order order st)) = is_completed order \<and>
         orders_completed (snd (process_order order st)) = orders_completed st \<and>
         total_busy_time_minutes (snd (process_order order st)) = total_busy_time_minutes st \<and>
         warehouse (snd (process_order order st)) = warehouse st \<and>
         (station_running st \<longrightarrow>
            process_queue [order] st = ([order], st\<lparr>order_queue := []\<rparr>))"
proof -
  have p: "process_order order s = (order, s)"
    if "products s = products st" for s
    using request_components_unknown [of s "product_id order"] assms that
    by (simp add: process_order_def)
  from p [of st] p [of "st\<lparr>order_queue := []\<rparr>"] show ?thesis
    by simp
qed

theorem unknown_product_rejected_witness:
  "process_order (example_order\<lparr>product_id := ''P9''\<rparr>) example_station =
     (example_order\<lparr>product_id := ''P9''\<rparr>, example_station) \<and>
   \<not> is_completed (fst (process_order (example_order\<lparr>product_id := ''P9''\<rparr>) example_station)) \<and>
   process_order example_order (set_products None example_station) =
     (example_order, set_products None example_station)"
proof -
  have a: "products example_station = Some example_catalog \<and> example_catalog ''P9'' = None"
    by (simp add: example_station_def set_products_def AssemblyStation_new_def
        example_catalog_def)
  have b: "products (set_products None example_station) = None"
    by (simp add: set_products_def)
  have c: "\<not> is_completed (example_order\<lparr>product_id := ''P9''\<rparr>)"
    by (simp add: example_order_def Order_new_def)
  from unknown_product_rejected [of example_station "example_order\<lparr>product_id := ''P9''\<rparr>"]
    unknown_product_rejected [of "set_products None example_station" example_order]
    a b c
  show ?thesis by simp
qed

lemma sint_add_fits:
  fixes a b :: int32
  assumes "fits_int (sint a + sint b)"
  shows "sint (a + b) = sint a + sint b"
  using assms
  by (simp add: fits_int_def sint_word_ariths signed_take_bit_int_eq_self)

lemma request_components_success:
  assumes "fst (request_components pid st)"
  shows "\<exists>catalog product fleet.
           products st = Some catalog \<and> catalog pid = Some product \<and>
           check_availability (bom product) (components (warehouse st)) \<and>
           agv_fleet st = Some fleet \<and> fleet \<noteq> [] \<and>
           snd (request_components pid st) =
             st\<lparr>warehouse := snd (reserve_components (bom product) (warehouse st)),
                agv_fleet := Some (fst (assign_agv_tasks (bom product) (fleet, 0)))\<rparr>"
  using assms
  by (auto simp: request_components_def reserve_components_def wait_for_components_def
      split: option.splits if_splits)

lemma request_components_dispatch:
  assumes "products st = Some catalog" and "catalog pid = Some product"
    and "check_availability (bom product) (components (warehouse st))"
    and "agv_fleet st = Some fleet" and "fleet \<noteq> []"
  shows "request_components pid st =
           (True, st\<lparr>warehouse := snd (reserve_components (bom product) (warehouse st)),
                     agv_fleet := Some (fst (assign_agv_tasks (bom product) (fleet, 0)))\<rparr>)"
  using assms
  by (simp add: request_components_def reserve_components_def wait_for_components_def)

text \<open>
  Claim C5, as amended. For every order that the station marks completed, the recorded
  completion time is the station's current simulation time plus the product's base
  assembly time plus the setup time. It is at least the order's release time plus
  these two whenever the station's simulation time is at least the release time and
  the sums stay in the range of \<open>int\<close>.
\<close>

theorem completed_order_completion_time:
  assumes "fst (request_components (product_id order) st)"
  shows "\<exists>catalog product.
           products st = Some catalog \<and> catalog (product_id order) = Some product \<and>
           is_completed (fst (process_order order st)) \<and>
           release_time_minutes (fst (process_order order st)) = release_time_minutes order \<and>
           completion_time_minutes (fst (process_order order st)) =
             current_sim_time_minutes st +
               (base_assembly_time_minutes product + setup_time_minutes st) \<and>
           (sint (release_time_minutes order) \<le> sint (current_sim_time_minutes st) \<and>
            fits_int (sint (base_assembly_time_minutes product) + sint (setup_time_minutes st)) \<and>
            fits_int (sint (current_sim_time_minutes st) +
                      (sint (base_assembly_time_minutes product) + sint (setup_time_minutes st)))
            \<longrightarrow>
              sint (release_time_minutes order) +
                (sint (base_assembly_time_minutes product) + sint (setup_time_minutes st))
              \<le> sint (completion_time_minutes (fst (process_order order st))))"
proof -
  from request_components_success [OF assms] obtain catalog product fleet
    where cat: "products st = Some catalog" "catalog (product_id order) = Some product"
      and st1: "snd (request_components (product_id order) st) =
             st\<lparr>warehouse := snd (reserve_components (bom product) (warehouse st)),
                agv_fleet := Some (fst (assign_agv_tasks (bom product) (fleet, 0)))\<rparr>"
    by blast
  obtain ok st1 where rc: "request_components (product_id order) st = (ok, st1)"
    by (cases "request_components (product_id order) st")
  with assms have ok: "ok" by simp
  from rc st1 have st1': "st1 =
             st\<lparr>warehouse := snd (reserve_components (bom product) (warehouse st)),
                agv_fleet := Some (fst (assign_agv_tasks (bom product) (fleet, 0)))\<rparr>"
    by simp
  from cat st1' have op: "calculate_operation_time (product_id order) st1 =
      base_assembly_time_minutes product + setup_time_minutes st"
    by (simp add: calculate_operation_time_def)
  from st1' have cur: "current_sim_time_minutes st1 = current_sim_time_minutes st"
    by simp
  have compl: "is_completed (fst (process_order order st))"
    and rel: "release_time_minutes (fst (process_order order st)) = release_time_minutes order"
    and ct: "completion_time_minutes (fst (process_order order st)) =
           current_sim_time_minutes st +
             (base_assembly_time_minutes product + setup_time_minutes st)"
    using rc ok op cur by (simp_all add: process_order_def Let_def)
  have "sint (release_time_minutes order) +
          (sint (base_assembly_time_minutes product) + sint (setup_time_minutes st))
        \<le> sint (completion_time_minutes (fst (process_order order st)))"
    if le: "sint (release_time_minutes order) \<le> sint (current_sim_time_minutes st)"
      and f1: "fits_int (sint (base_assembly_time_minutes product) + sint (setup_time_minutes st))"
      and f2: "fits_int (sint (current_sim_time_minutes st) +
                (sint (base_assembly_time_minutes product) + sint (setup_time_minutes st)))"
  proof -
    from f2 sint_add_fits [OF f1]
    have "fits_int (sint (current_sim_time_minutes st) +
             sint (base_assembly_time_minutes product + setup_time_minutes st))"
      by simp
    from sint_add_fits [OF this] sint_add_fits [OF f1] ct le show ?thesis by simp
  qed
  with cat compl rel ct show ?thesis by blast
qed

lemma example_order_fields:
  "product_id example_order = ''P1'' \<and> release_time_minutes example_order = 10"
  by (simp add: example_order_def Order_new_def)

lemma example_station_fields:
  "products example_station = Some example_catalog \<and>
   current_sim_time_minutes example_station = 0 \<and>
   setup_time_minutes example_station = 5 \<and>
   example_catalog ''P1'' =
     Some \<lparr>bom = [(''bolt'', 1), (''nut'', 1)], base_assembly_time_minutes = 20\<rparr>"
  by (simp add: example_station_def set_products_def AssemblyStation_new_def
      example_catalog_def)

lemma example_processed_order:
  "fst (process_order example_order (set_simulation_time t example_station)) =
     example_order\<lparr>is_completed := True, completion_time_minutes := t + 25\<rparr>"
  by (simp add: process_order_def Let_def request_components_def example_station_def
      set_products_def set_simulation_time_def AssemblyStation_new_def example_catalog_def
      reserve_components_def example_warehouse_def wait_for_components_def
      calculate_operation_time_def example_order_def Order_new_def)

theorem completed_order_completion_time_witness:
  "fst (request_components (product_id example_order) (set_simulation_time 30 example_station)) \<and>
   is_completed (fst (process_order example_order (set_simulation_time 30 example_station))) \<and>
   sint (completion_time_minutes
           (fst (process_order example_order (set_simulation_time 30 example_station)))) = 55 \<and>
   sint (release_time_minutes example_order) + (20 + 5)
     \<le> sint (completion_time_minutes
           (fst (process_order example_order (set_simulation_time 30 example_station))))"
proof -
  have r: "fst (request_components (product_id example_order)
                  (set_simulation_time 30 example_station))"
    by (simp add: request_components_def example_station_def set_products_def
      set_simulation_time_def AssemblyStation_new_def example_catalog_def
      reserve_components_def example_warehouse_def wait_for_components_def
      example_order_def Order_new_def)
  have f: "products (set_simulation_time 30 example_station) = Some example_catalog \<and>
           current_sim_time_minutes (set_simulation_time 30 example_station) = 30 \<and>
           setup_time_minutes (set_simulation_time 30 example_station) = 5"
    using example_station_fields by (simp add: set_simulation_time_def)
  from completed_order_completion_time [OF r] f example_station_fields example_order_fields r
  show ?thesis by (auto simp: fits_int_def)
qed

text \<open>
  Claim C5 as stated fails: the station never reads the release time. With its
  simulation time at 0, an order released at minute 10 for a product with base time
  20 is completed at minute 25, before minute 35.
\<close>

theorem completion_before_release_counterexample:
  "current_sim_time_minutes example_station = 0 \<and>
   is_completed (fst (process_order example_order example_station)) \<and>
   sint (release_time_minutes (fst (process_order example_order example_station))) = 10 \<and>
   sint (completion_time_minutes (fst (process_order example_order example_station))) = 25 \<and>
   \<not> sint (release_time_minutes example_order) + (20 + 5)
       \<le> sint (completion_time_minutes (fst (process_order example_order example_station)))"
  using example_processed_order [of 0] example_station_fields
  by (simp add: set_simulation_time_def example_station_def set_products_def
      AssemblyStation_new_def example_order_def Order_new_def)

text \<open>
  Claim C10. When the product is in the catalog and the warehouse satisfies its bill of
  materials but the fleet pointer is null or the fleet is empty, \<open>request_components\<close>
  returns false and the components are not restored: every component of the bill is
  left deducted once, or deducted twice when the inventory after the first deduction
  still satisfies the bill. Nothing else of the station changes.
\<close>

theorem empty_fleet_double_deduction:
  assumes cat: "products st = Some catalog" "catalog pid = Some product"
    and d: "distinct (map fst (bom product))"
    and avail: "fst (has_components (bom product) (warehouse st))"
    and fleet: "agv_fleet st = None \<or> agv_fleet st = Some []"
  shows "\<not> fst (request_components pid st) \<and>
         (\<exists>w'. snd (request_components pid st) = st\<lparr>warehouse := w'\<rparr> \<and>
            finished_products w' = finished_products (warehouse st) \<and>
            (\<forall>k. k \<notin> fst ` set (bom product) \<longrightarrow> components w' k = components (warehouse st) k) \<and>
            (\<forall>(k, v) \<in> set (bom product). \<exists>q. components (warehouse st) k = Some q \<and>
               components w' k =
                 (if fst (has_components (bom product)
                            (snd (reserve_components (bom product) (warehouse st))))
                  then Some (q - v - v) else Some (q - v))))"
proof -
  let ?b = "bom product"
  let ?w = "warehouse st"
  let ?w1 = "?w\<lparr>components := deduct ?b (components ?w)\<rparr>"
  from avail have a: "check_availability ?b (components ?w)"
    by (simp add: has_components_def)
  then have r1: "reserve_components ?b ?w = (True, ?w1)"
    by (simp add: reserve_components_def)
  with cat fleet have rc: "request_components pid st =
      (False, st\<lparr>warehouse := snd (reserve_components ?b ?w1)\<rparr>)"
    by (auto simp: request_components_def)
  from a have q: "\<exists>q. components ?w k = Some q" if "(k, v) \<in> set ?b" for k v
    using that by (auto simp: check_availability_iff)
  show ?thesis
  proof (cases "check_availability ?b (components ?w1)")
    case True
    then have w': "snd (reserve_components ?b ?w1) =
        ?w\<lparr>components := deduct ?b (deduct ?b (components ?w))\<rparr>"
      by (simp add: reserve_components_def)
    have "\<exists>q. components ?w k = Some q \<and>
            deduct ?b (deduct ?b (components ?w)) k = Some (q - v - v)"
      if kv: "(k, v) \<in> set ?b" for k v
      using q [OF kv] deduct_in [OF d kv, of "components ?w"]
        deduct_in [OF d kv, of "deduct ?b (components ?w)"]
      by (auto simp: subscript_def)
    with True rc r1 w' show ?thesis
      by (auto simp: has_components_def deduct_notin)
  next
    case False
    then have w': "snd (reserve_components ?b ?w1) = ?w1"
      by (simp add: reserve_components_def)
    have "\<exists>q. components ?w k = Some q \<and> deduct ?b (components ?w) k = Some (q - v)"
      if kv: "(k, v) \<in> set ?b" for k v
      using q [OF kv] deduct_in [OF d kv, of "components ?w"]
      by (auto simp: subscript_def)
    with False rc r1 w' show ?thesis
      by (auto simp: has_components_def deduct_notin)
  qed
qed

theorem empty_fleet_double_deduction_witness:
  "fst (has_components [(''bolt'', 1), (''nut'', 1)] example_warehouse) \<and>
   \<not> fst (request_components ''P1'' example_station_no_fleet) \<and>
   components (warehouse (snd (request_components ''P1'' example_station_no_fleet))) ''bolt'' = Some 2 \<and>
   components (warehouse (snd (request_components ''P1'' example_station_no_fleet))) ''nut'' = Some 0 \<and>
   fst (has_components [(''bolt'', 3)] example_warehouse) \<and>
   \<not> fst (request_components ''P2'' (example_station_no_fleet\<lparr>agv_fleet := Some []\<rparr>)) \<and>
   components (warehouse (snd (request_components ''P2''
       (example_station_no_fleet\<lparr>agv_fleet := Some []\<rparr>)))) ''bolt'' = Some 1"
proof -
  let ?p1 = "\<lparr>bom = [(''bolt'', 1), (''nut'', 1)], base_assembly_time_minutes = 20\<rparr>"
  let ?p2 = "\<lparr>bom = [(''bolt'', 3)], base_assembly_time_minutes = 12\<rparr>"
  let ?s1 = "example_station_no_fleet"
  let ?s2 = "example_station_no_fleet\<lparr>agv_fleet := Some []\<rparr>"
  have p1: "products ?s1 = Some example_catalog" and p2: "products ?s2 = Some example_catalog"
    and w1: "warehouse ?s1 = example_warehouse" and w2: "warehouse ?s2 = example_warehouse"
    and f1: "agv_fleet ?s1 = None \<or> agv_fleet ?s1 = Some []"
    and f2: "agv_fleet ?s2 = None \<or> agv_fleet ?s2 = Some []"
    by (simp_all add: example_station_no_fleet_def set_products_def AssemblyStation_new_def)
  have c1: "example_catalog ''P1'' = Some ?p1" and c2: "example_catalog ''P2'' = Some ?p2"
    by (simp_all add: example_catalog_def)
  have d1: "distinct (map fst (bom ?p1))" and d2: "distinct (map fst (bom ?p2))"
    by simp_all
  have h1: "fst (has_components [(''bolt'', 1), (''nut'', 1)] example_warehouse)"
    and h2: "fst (has_components [(''bolt'', 3)] example_warehouse)"
    by (simp_all add: has_components_def example_warehouse_def)
  have r1: "fst (has_components [(''bolt'', 1), (''nut'', 1)]
              (snd (reserve_components [(''bolt'', 1), (''nut'', 1)] example_warehouse)))"
    and r2: "\<not> fst (has_components [(''bolt'', 3)]
              (snd (reserve_components [(''bolt'', 3)] example_warehouse)))"
    by (simp_all add: has_components_def reserve_components_def example_warehouse_def
        subscript_def)
  have q: "components example_warehouse ''bolt'' = Some 4"
    "components example_warehouse ''nut'' = Some 2"
    by (simp_all add: example_warehouse_def)
  from h1 w1 have a1: "fst (has_components (bom ?p1) (warehouse ?s1))" by simp
  from h2 w2 have a2: "fst (has_components (bom ?p2) (warehouse ?s2))" by simp
  from empty_fleet_double_deduction [OF p1 c1 d1 a1 f1]
  obtain w' where n1: "\<not> fst (request_components ''P1'' ?s1)"
    and s1: "snd (request_components ''P1'' ?s1) = ?s1\<lparr>warehouse := w'\<rparr>"
    and b1: "\<forall>(k, v) \<in> set (bom ?p1). \<exists>q. components (warehouse ?s1) k = Some q \<and>
               components w' k =
                 (if fst (has_components (bom ?p1)
                            (snd (reserve_components (bom ?p1) (warehouse ?s1))))
                  then Some (q - v - v) else Some (q - v))"
    by blast
  from b1 have "components w' ''bolt'' = Some 2 \<and> components w' ''nut'' = Some 0"
    unfolding w1 using r1 q by simp
  with n1 s1
  have e1: "\<not> fst (request_components ''P1'' ?s1) \<and>
      components (warehouse (snd (request_components ''P1'' ?s1))) ''bolt'' = Some 2 \<and>
      components (warehouse (snd (request_components ''P1'' ?s1))) ''nut'' = Some 0"
    by simp
  from empty_fleet_double_deduction [OF p2 c2 d2 a2 f2]
  obtain w'' where n2: "\<not> fst (request_components ''P2'' ?s2)"
    and s2: "snd (request_components ''P2'' ?s2) = ?s2\<lparr>warehouse := w''\<rparr>"
    and b2: "\<forall>(k, v) \<in> set (bom ?p2). \<exists>q. components (warehouse ?s2) k = Some q \<and>
               components w'' k =
                 (if fst (has_components (bom ?p2)
                            (snd (reserve_components (bom ?p2) (warehouse ?s2))))
                  then Some (q - v - v) else Some (q - v))"
    by blast
  from b2 have "components w'' ''bolt'' = Some 1"
    unfolding w2 using r2 q by simp
  with n2 s2
  have e2: "\<not> fst (request_components ''P2'' ?s2) \<and>
      components (warehouse (snd (request_components ''P2'' ?s2))) ''bolt'' = Some 1"
    by simp
  from h1 h2 e1 e2 show ?thesis by simp
qed

section \<open>AssemblyStation: dispatch of transport tasks\<close>

lemma find_idle_Some:
  "find_idle fleet k i = Some j \<Longrightarrow>
   i \<le> j \<and> j < length fleet \<and> is_idle (fleet ! ((k + j) mod length fleet)) \<and>
   (\<forall>i'. i \<le> i' \<and> i' < j \<longrightarrow> \<not> is_idle (fleet ! ((k + i') mod length fleet)))"
proof (induction fleet k i rule: find_idle.induct)
  case (1 fleet k i)
  from "1.prems" have lt: "i < length fleet"
    by (subst (asm) find_idle.simps) (simp split: if_splits)
  show ?case
  proof (cases "is_idle (fleet ! ((k + i) mod length fleet))")
    case True
    with "1.prems" lt have "j = i"
      by (subst (asm) find_idle.simps) simp
    with True lt show ?thesis by auto
  next
    case False
    with "1.prems" lt have "find_idle fleet k (i + 1) = Some j"
      by (subst (asm) find_idle.simps) simp
    from "1.IH" [OF lt False this]
    have ih: "i + 1 \<le> j" "j < length fleet" "is_idle (fleet ! ((k + j) mod length fleet))"
      "\<forall>i'. i + 1 \<le> i' \<and> i' < j \<longrightarrow> \<not> is_idle (fleet ! ((k + i') mod length fleet))"
      by auto
    have "\<not> is_idle (fleet ! ((k + i') mod length fleet))" if "i \<le> i'" "i' < j" for i'
    proof (cases "i' = i")
      case True
      with False show ?thesis by simp
    next
      case False
      with that ih(4) show ?thesis by simp
    qed
    with ih show ?thesis by simp
  qed
qed

lemma find_idle_None:
  "find_idle fleet k i = None \<Longrightarrow>
   \<forall>i'. i \<le> i' \<and> i' < length fleet \<longrightarrow> \<not> is_idle (fleet ! ((k + i') mod length fleet))"
proof (induction fleet k i rule: find_idle.induct)
  case (1 fleet k i)
  show ?case
  proof (cases "i < length fleet")
    case False
    then show ?thesis by auto
  next
    case lt: True
    with "1.prems" have ni: "\<not> is_idle (fleet ! ((k + i) mod length fleet))"
      by (subst (asm) find_idle.simps) (simp split: if_splits)
    with "1.prems" lt have "find_idle fleet k (i + 1) = None"
      by (subst (asm) find_idle.simps) simp
    from "1.IH" [OF lt ni this]
    have ih: "\<forall>i'. i + 1 \<le> i' \<and> i' < length fleet \<longrightarrow>
                \<not> is_idle (fleet ! ((k + i') mod length fleet))" .
    have "\<not> is_idle (fleet ! ((k + i') mod length fleet))"
      if "i \<le> i'" "i' < length fleet" for i'
    proof (cases "i' = i")
      case True
      with ni show ?thesis by simp
    next
      case False
      with that ih show ?thesis by simp
    qed
    then show ?thesis by simp
  qed
qed

lemma cyclic_offset:
  fixes k j n :: nat
  assumes "j < n"
  shows "(k + (j + (n - k mod n)) mod n) mod n = j"
proof -
  from assms have n: "0 < n" by simp
  then have le: "k mod n \<le> n" by (simp add: less_imp_le)
  have "(k + (j + (n - k mod n)) mod n) mod n = (k mod n + (j + (n - k mod n))) mod n"
    by (simp add: mod_add_eq mod_add_left_eq mod_add_right_eq)
  also from le have "k mod n + (j + (n - k mod n)) = j + n" by simp
  also from assms have "(j + n) mod n = j" by simp
  finally show ?thesis .
qed

lemma none_idle:
  assumes "find_idle fleet k 0 = None" and "j < length fleet"
  shows "\<not> is_idle (fleet ! j)"
proof -
  let ?n = "length fleet"
  let ?i = "(j + (?n - k mod ?n)) mod ?n"
  from assms(2) have "0 < ?n" by (cases fleet) simp_all
  then have "?i < ?n" by (rule mod_less_divisor)
  with find_idle_None [OF assms(1)] have "\<not> is_idle (fleet ! ((k + ?i) mod ?n))" by simp
  with cyclic_offset [OF assms(2), of k] show ?thesis by simp
qed

lemma assign_agv_tasks_foldl:
  "assign_agv_tasks required fa = foldl (\<lambda>fa component. assign_component component fa) fa required"
  by (induction required arbitrary: fa) simp_all

lemma assign_component_cases:
  "(\<exists>i < length fl.
       is_idle (fl ! ((k + i) mod length fl)) \<and>
       (\<forall>i' < i. \<not> is_idle (fl ! ((k + i') mod length fl))) \<and>
       assign_component (c, q) (fl, k) =
         (fl[(k + i) mod length fl :=
               (fl ! ((k + i) mod length fl))
                 \<lparr>current_task := \<lparr>component_id = c, quantity = q,
                                    destination = ''ASSEMBLY_STATION'',
                                    is_complete = False\<rparr>\<rparr>],
          (k + i + 1) mod length fl))
   \<or> ((\<forall>j < length fl. \<not> is_idle (fl ! j)) \<and> assign_component (c, q) (fl, k) = (fl, k))"
proof (cases "find_idle fl k 0")
  case None
  with none_idle [OF None] show ?thesis
    by (simp add: assign_component_def)
next
  case (Some i)
  from find_idle_Some [OF Some]
  have i: "i < length fl" "is_idle (fl ! ((k + i) mod length fl))"
    "\<forall>i' < i. \<not> is_idle (fl ! ((k + i') mod length fl))"
    by auto
  from i(2) have "assign_task c q ''ASSEMBLY_STATION'' (fl ! ((k + i) mod length fl)) =
      (fl ! ((k + i) mod length fl))
        \<lparr>current_task := \<lparr>component_id = c, quantity = q,
                           destination = ''ASSEMBLY_STATION'', is_complete = False\<rparr>\<rparr>"
    by (simp add: assign_task_def is_idle_def)
  with Some have "assign_component (c, q) (fl, k) =
         (fl[(k + i) mod length fl :=
               (fl ! ((k + i) mod length fl))
                 \<lparr>current_task := \<lparr>component_id = c, quantity = q,
                                    destination = ''ASSEMBLY_STATION'',
                                    is_complete = False\<rparr>\<rparr>],
          (k + i + 1) mod length fl)"
    by (simp add: assign_component_def)
  with i show ?thesis by blast
qed

text \<open>
  Claim C8, as amended. For an order whose product is known and available, with a
  non-empty fleet, \<open>request_components\<close> succeeds and handles the components of the
  bill in order, starting from index 0 for the first. For each component it takes the
  first idle AGV in cyclic order from the current index, gives it the task with the
  component id, the quantity and the destination \<open>ASSEMBLY_STATION\<close>, and moves the
  index one past that AGV; when no AGV is idle it assigns nothing and keeps the index.
  The fleet is taken as it stands during the scan: the AGVs' own threads are not
  interleaved with it.
\<close>

theorem dispatch_round_robin:
  assumes "products st = Some catalog" and "catalog pid = Some product"
    and "fst (has_components (bom product) (warehouse st))"
    and "agv_fleet st = Some fleet" and "fleet \<noteq> []"
  shows "fst (request_components pid st) \<and>
         agv_fleet (snd (request_components pid st)) =
           Some (fst (foldl (\<lambda>fa component. assign_component component fa)
                        (fleet, 0) (bom product))) \<and>
         (\<forall>c q fl k.
            (\<exists>i < length fl.
               is_idle (fl ! ((k + i) mod length fl)) \<and>
               (\<forall>i' < i. \<not> is_idle (fl ! ((k + i') mod length fl))) \<and>
               assign_component (c, q) (fl, k) =
                 (fl[(k + i) mod length fl :=
                       (fl ! ((k + i) mod length fl))
                         \<lparr>current_task := \<lparr>component_id = c, quantity = q,
                                            destination = ''ASSEMBLY_STATION'',
                                            is_complete = False\<rparr>\<rparr>],
                  (k + i + 1) mod length fl))
            \<or> ((\<forall>j < length fl. \<not> is_idle (fl ! j)) \<and>
                assign_component (c, q) (fl, k) = (fl, k)))"
proof -
  from assms(3) have "check_availability (bom product) (components (warehouse st))"
    by (simp add: has_components_def)
  from request_components_dispatch [OF assms(1,2) this assms(4,5)]
  have "fst (request_components pid st) \<and>
         agv_fleet (snd (request_components pid st)) =
           Some (fst (foldl (\<lambda>fa component. assign_component component fa)
                        (fleet, 0) (bom product)))"
    by (simp add: assign_agv_tasks_foldl)
  with assign_component_cases show ?thesis by blast
qed

lemmas example_defs =
  example_station_def set_products_def AssemblyStation_new_def example_catalog_def
  example_warehouse_def AGV_new_def AGVTask_new_def started_agv_def

lemma first_order:
  "station_after_first_order =
     example_station
       \<lparr>warehouse := \<lparr>components = [''bolt'' \<mapsto> 4, ''nut'' \<mapsto> 1], finished_products = Map.empty\<rparr>,
        agv_fleet := Some [assign_task ''nut'' 1 ''ASSEMBLY_STATION'' (started_agv 0),
                           started_agv 1]\<rparr>"
  by (simp add: station_after_first_order_def request_components_def example_defs
      reserve_components_def subscript_def wait_for_components_def assign_component_def
      find_idle.simps is_idle_def assign_task_def)

lemma between_orders:
  "station_before_second_order =
     example_station
       \<lparr>warehouse := \<lparr>components = [''bolt'' \<mapsto> 4, ''nut'' \<mapsto> 1], finished_products = Map.empty\<rparr>,
        agv_fleet := Some [(started_agv 0)\<lparr>total_operations := 1, busy_time_minutes := 7\<rparr>,
                           started_agv 1]\<rparr>"
  unfolding station_before_second_order_def first_order
  by (simp add: example_defs assign_task_def run_iteration_def execute_task_def
      Let_def transition_to_def)

lemma second_order:
  "station_after_second_order =
     example_station
       \<lparr>warehouse := \<lparr>components = [''bolt'' \<mapsto> 4, ''nut'' \<mapsto> 0], finished_products = Map.empty\<rparr>,
        agv_fleet := Some [assign_task ''nut'' 1 ''ASSEMBLY_STATION''
                             ((started_agv 0)\<lparr>total_operations := 1, busy_time_minutes := 7\<rparr>),
                           started_agv 1]\<rparr>"
  unfolding station_after_second_order_def between_orders
  by (simp add: request_components_def example_defs
      reserve_components_def subscript_def wait_for_components_def assign_component_def
      find_idle.simps is_idle_def assign_task_def)

theorem dispatch_round_robin_witness:
  "fst (has_components [(''bolt'', 1), (''nut'', 1)] (warehouse example_station)) \<and>
   fst (request_components ''P1'' example_station) \<and>
   map current_task (the (agv_fleet (snd (request_components ''P1'' example_station)))) =
     [\<lparr>component_id = ''bolt'', quantity = 1, destination = ''ASSEMBLY_STATION'',
       is_complete = False\<rparr>,
      \<lparr>component_id = ''nut'', quantity = 1, destination = ''ASSEMBLY_STATION'',
       is_complete = False\<rparr>]"
proof -
  let ?p1 = "\<lparr>bom = [(''bolt'', 1), (''nut'', 1)], base_assembly_time_minutes = 20\<rparr>"
  let ?fleet = "[started_agv 0, started_agv 1]"
  have p: "products example_station = Some example_catalog"
    and c: "example_catalog ''P1'' = Some ?p1"
    and f: "agv_fleet example_station = Some ?fleet"
    and ne: "?fleet \<noteq> []"
    by (simp_all add: example_station_def set_products_def AssemblyStation_new_def
        example_catalog_def)
  have h: "fst (has_components [(''bolt'', 1), (''nut'', 1)] (warehouse example_station))"
    by (simp add: has_components_def example_station_def set_products_def
        AssemblyStation_new_def example_warehouse_def)
  then have h': "fst (has_components (bom ?p1) (warehouse example_station))" by simp
  have fold: "fst (foldl (\<lambda>fa component. assign_component component fa) (?fleet, 0) (bom ?p1)) =
     [assign_task ''bolt'' 1 ''ASSEMBLY_STATION'' (started_agv 0),
      assign_task ''nut'' 1 ''ASSEMBLY_STATION'' (started_agv 1)]"
    by (simp add: assign_component_def find_idle.simps is_idle_def assign_task_def
        AGV_new_def AGVTask_new_def started_agv_def)
  from dispatch_round_robin [OF p c h' f ne]
  have "fst (request_components ''P1'' example_station)"
    and "agv_fleet (snd (request_components ''P1'' example_station)) =
           Some (fst (foldl (\<lambda>fa component. assign_component component fa)
                        (?fleet, 0) (bom ?p1)))"
    by blast+
  with fold h show ?thesis
    by (simp add: assign_task_def AGV_new_def AGVTask_new_def started_agv_def)
qed

text \<open>
  Claim C8 as stated fails: the scan index is a local variable of
  \<open>request_components\<close>. The first order is dispatched to AGV 0, which leaves the index
  at 1; once AGV 0 is idle again, the second order is dispatched to AGV 0 as well,
  where a scan from index 1 would have chosen AGV 1.
\<close>

theorem scan_restarts_each_order_counterexample:
  "snd (assign_agv_tasks [(''nut'', 1)] (the (agv_fleet example_station), 0)) = 1 \<and>
   task_components (agv_fleet station_after_first_order) = [''nut'', []] \<and>
   map is_idle (the (agv_fleet station_before_second_order)) = [True, True] \<and>
   task_components (agv_fleet station_after_second_order) = [''nut'', []] \<and>
   task_components
     (Some (fst (assign_agv_tasks [(''nut'', 1)]
                   (the (agv_fleet station_before_second_order), 1)))) = [[], ''nut'']"
proof -
  have a: "snd (assign_agv_tasks [(''nut'', 1)] (the (agv_fleet example_station), 0)) = 1"
    by (simp add: example_defs assign_component_def find_idle.simps is_idle_def)
  have b: "task_components (agv_fleet station_after_first_order) = [''nut'', []]"
    unfolding first_order
    by (simp add: task_components_def example_defs assign_task_def)
  have c: "map is_idle (the (agv_fleet station_before_second_order)) = [True, True]"
    unfolding between_orders
    by (simp add: example_defs is_idle_def)
  have d: "task_components (agv_fleet station_after_second_order) = [''nut'', []]"
    unfolding second_order
    by (simp add: task_components_def example_defs assign_task_def)
  have e: "task_components
     (Some (fst (assign_agv_tasks [(''nut'', 1)]
                   (the (agv_fleet station_before_second_order), 1)))) = [[], ''nut'']"
    unfolding between_orders
    by (simp add: task_components_def example_defs assign_component_def find_idle.simps
        is_idle_def assign_task_def)
  from a b c d e show ?thesis by simp
qed

end
